theory Spec2Isabelle
  imports Main
begin

section \<open>Domain layer\<close>

text \<open>
  The dataclass \<^verbatim>\<open>User\<close> of \<^verbatim>\<open>main.py\<close>. Python strings are modelled as HOL strings;
  equality of strings is equality of the character lists, with no normalisation of case
  or whitespace, as \<^verbatim>\<open>==\<close> and \<^verbatim>\<open>!=\<close> on \<^verbatim>\<open>str\<close> are.
\<close>

record User =
  username :: string
  password :: string

section \<open>Application layer\<close>

text \<open>
  The two exceptions derived from \<^verbatim>\<open>ApplicationError\<close>. An operation that can raise
  returns a sum: \<open>Inl\<close> carries the exception raised, \<open>Inr\<close> the value returned.
\<close>

datatype ApplicationError = UserNotFoundError | UserNotAuthenticatedError

record HTTPBasicCredentialsProtocol =
  username :: string
  password :: string

text \<open>Short forms of the two constructors, positional as \<^verbatim>\<open>User(n, p)\<close> is.\<close>

abbreviation User_of :: "string \<Rightarrow> string \<Rightarrow> User" where
  "User_of n p \<equiv> \<lparr>User.username = n, User.password = p\<rparr>"

abbreviation credentials_of :: "string \<Rightarrow> string \<Rightarrow> HTTPBasicCredentialsProtocol" where
  "credentials_of n p \<equiv>
     \<lparr>HTTPBasicCredentialsProtocol.username = n, HTTPBasicCredentialsProtocol.password = p\<rparr>"

section \<open>Infrastructure layer: the repository\<close>

text \<open>
  \<^verbatim>\<open>UserRepository\<close> holds the list it was constructed with in \<^verbatim>\<open>self._database\<close>.
  \<^verbatim>\<open>next(filter(p, xs), None)\<close> is the first element of \<open>xs\<close> that satisfies \<open>p\<close>, and
  \<^verbatim>\<open>None\<close> when there is none: the function \<^const>\<open>find\<close> on lists.
\<close>

record UserRepository =
  database :: "User list"

definition with_username :: "UserRepository \<Rightarrow> string \<Rightarrow> User option" where
  "with_username self uname = find (\<lambda>u. User.username u = uname) (database self)"

section \<open>Application layer: the access service\<close>

text \<open>
  \<^verbatim>\<open>AccessService\<close> keeps the credentials of the request and the repository. The
  repository is the list-backed \<^verbatim>\<open>UserRepository\<close>, the only implementation of
  \<^verbatim>\<open>UserRepositoryProtocol\<close> in the program and the one the provider binds to it.

  \<^verbatim>\<open>check_auth\<close> is declared to return \<^verbatim>\<open>User | None\<close>, so its normal result is a
  \<open>User option\<close>; the value returned is the variable \<^verbatim>\<open>user\<close> itself.
\<close>

record AccessService =
  credentials :: HTTPBasicCredentialsProtocol
  user_repository :: UserRepository

definition check_auth :: "AccessService \<Rightarrow> ApplicationError + User option" where
  "check_auth self =
     (let data = credentials self;
          repo = user_repository self;
          user = with_username repo (HTTPBasicCredentialsProtocol.username data)
      in case user of
           None \<Rightarrow> Inl UserNotFoundError
         | Some u \<Rightarrow>
             if User.password u \<noteq> HTTPBasicCredentialsProtocol.password data
             then Inl UserNotAuthenticatedError
             else Inr user)"

section \<open>Presentation layer\<close>

text \<open>
  \<^verbatim>\<open>HTTPException(status_code, detail, headers)\<close> as a record; the header dictionary is
  the association list of its literal.
\<close>

record HTTPException =
  status_code :: nat
  detail :: string
  headers :: "(string \<times> string) list"

text \<open>
  Modelled from the spec: \<^verbatim>\<open>status.HTTP_401_UNAUTHORIZED\<close> is a constant of the web
  framework and not part of the source; the failure response of the protected route has
  status 401.
\<close>

definition HTTP_401_UNAUTHORIZED :: nat where
  "HTTP_401_UNAUTHORIZED = 401"

datatype FileResponse = FileResponse string

definition index :: FileResponse where
  "index = FileResponse ''public/index.html''"

text \<open>
  The handler of \<^verbatim>\<open>GET /protected_resource/\<close>. The \<^verbatim>\<open>except\<close> clause names both
  exceptions and raises the same \<^verbatim>\<open>HTTPException\<close> for either; the result of
  \<^verbatim>\<open>check_auth\<close> is not used.
\<close>

definition get_protected_resource :: "AccessService \<Rightarrow> HTTPException + string" where
  "get_protected_resource access_service =
     (case check_auth access_service of
        Inl UserNotFoundError \<Rightarrow>
          Inl \<lparr>status_code = HTTP_401_UNAUTHORIZED,
               detail = ''User not authenticated'',
               headers = [(''WWW-Authenticate'', ''Basic'')]\<rparr>
      | Inl UserNotAuthenticatedError \<Rightarrow>
          Inl \<lparr>status_code = HTTP_401_UNAUTHORIZED,
               detail = ''User not authenticated'',
               headers = [(''WWW-Authenticate'', ''Basic'')]\<rparr>
      | Inr _ \<Rightarrow> Inr ''You got my secret, welcome!'')"

text \<open>
  An HTTP response, as far as the handler decides it: the status, the headers the
  handler sets, and the body, which is either a returned value or the detail of an
  exception.
\<close>

datatype response_body = Body string | Detail string

record http_response =
  status :: nat
  response_headers :: "(string \<times> string) list"
  body :: response_body

text \<open>
  Modelled from the spec: the translation of a handler's outcome into an HTTP response
  is done by the web framework, which is not part of the source. Following the table of
  external interfaces, a returned string becomes a response with status 200 and that
  string as body, and an \<^verbatim>\<open>HTTPException\<close> becomes a response with its status code, its
  headers and its detail as body.
\<close>

definition http_of :: "HTTPException + string \<Rightarrow> http_response" where
  "http_of outcome =
     (case outcome of
        Inr s \<Rightarrow> \<lparr>status = 200, response_headers = [], body = Body s\<rparr>
      | Inl e \<Rightarrow> \<lparr>status = status_code e, response_headers = headers e,
                 body = Detail (detail e)\<rparr>)"

section \<open>Infrastructure layer: providers and the running application\<close>

definition DBProvider_database :: "User list" where
  "DBProvider_database =
     [\<lparr>User.username = ''user1'', User.password = ''pass1''\<rparr>,
      \<lparr>User.username = ''user2'', User.password = ''pass2''\<rparr>,
      \<lparr>User.username = ''user3'', User.password = ''pass3''\<rparr>,
      \<lparr>User.username = ''user4'', User.password = ''pass4''\<rparr>,
      \<lparr>User.username = ''user5'', User.password = ''pass5''\<rparr>]"

text \<open>
  The list provided in application scope is one object, and the repository of every
  request holds a reference to it: what one request did to the list of its repository
  would be seen by every later request. The state of the running application is the
  content of that list. A request that reaches a handler is either \<^verbatim>\<open>GET /\<close> or
  \<^verbatim>\<open>GET /protected_resource/\<close> with the credentials of its Basic header.
\<close>

record app_state =
  store :: "User list"

datatype request = GetIndex | GetProtectedResource HTTPBasicCredentialsProtocol

datatype outcome = IndexResult FileResponse | ProtectedResult "HTTPException + string"

definition create_app :: app_state where
  "create_app = \<lparr>store = DBProvider_database\<rparr>"

text \<open>
  The service the container builds for a request: an \<^verbatim>\<open>AccessService\<close> on the
  credentials and a \<^verbatim>\<open>UserRepository\<close> on the shared list.
\<close>

definition access_service_for :: "app_state \<Rightarrow> HTTPBasicCredentialsProtocol \<Rightarrow> AccessService" where
  "access_service_for s creds =
     \<lparr>credentials = creds, user_repository = \<lparr>database = store s\<rparr>\<rparr>"

text \<open>
  The operations as they run inside a request, as steps on the shared list: each takes
  the state before the call and returns its result together with the state after the
  call, and a caller goes on with the state its callee returned. The lookup reads the
  list through \<^verbatim>\<open>filter\<close> and \<^verbatim>\<open>next\<close>; the access check calls the lookup and compares
  the password of the record found; the handler of the protected route calls the access
  check; the handler of \<^verbatim>\<open>GET /\<close> builds a \<^verbatim>\<open>FileResponse\<close> and calls nothing.
\<close>

definition with_username_step :: "string \<Rightarrow> app_state \<Rightarrow> User option \<times> app_state" where
  "with_username_step uname s = (with_username \<lparr>database = store s\<rparr> uname, s)"

definition check_auth_step ::
  "HTTPBasicCredentialsProtocol \<Rightarrow> app_state \<Rightarrow> (ApplicationError + User option) \<times> app_state" where
  "check_auth_step data s =
     (case with_username_step (HTTPBasicCredentialsProtocol.username data) s of
        (user, s') \<Rightarrow>
          (case user of
             None \<Rightarrow> (Inl UserNotFoundError, s')
           | Some u \<Rightarrow>
               if User.password u \<noteq> HTTPBasicCredentialsProtocol.password data
               then (Inl UserNotAuthenticatedError, s')
               else (Inr user, s')))"

definition get_protected_resource_step ::
  "HTTPBasicCredentialsProtocol \<Rightarrow> app_state \<Rightarrow> (HTTPException + string) \<times> app_state" where
  "get_protected_resource_step creds s =
     (case check_auth_step creds s of
        (Inl UserNotFoundError, s') \<Rightarrow>
          (Inl \<lparr>status_code = HTTP_401_UNAUTHORIZED,
                detail = ''User not authenticated'',
                headers = [(''WWW-Authenticate'', ''Basic'')]\<rparr>, s')
      | (Inl UserNotAuthenticatedError, s') \<Rightarrow>
          (Inl \<lparr>status_code = HTTP_401_UNAUTHORIZED,
                detail = ''User not authenticated'',
                headers = [(''WWW-Authenticate'', ''Basic'')]\<rparr>, s')
      | (Inr _, s') \<Rightarrow> (Inr ''You got my secret, welcome!'', s'))"

definition index_step :: "app_state \<Rightarrow> FileResponse \<times> app_state" where
  "index_step s = (index, s)"

text \<open>
  Serving one request runs the handler of its route and goes on with the state the
  handler returned; serving a sequence of requests serves them one after the other.
\<close>

definition handle :: "app_state \<Rightarrow> request \<Rightarrow> outcome \<times> app_state" where
  "handle s req =
     (case req of
        GetIndex \<Rightarrow> (case index_step s of (r, s') \<Rightarrow> (IndexResult r, s'))
      | GetProtectedResource creds \<Rightarrow>
          (case get_protected_resource_step creds s of (r, s') \<Rightarrow> (ProtectedResult r, s')))"

fun serve :: "app_state \<Rightarrow> request list \<Rightarrow> outcome list \<times> app_state" where
  "serve s [] = ([], s)"
| "serve s (req # reqs) =
     (case handle s req of
        (out, s') \<Rightarrow> (case serve s' reqs of (outs, s'') \<Rightarrow> (out # outs, s'')))"

section \<open>Lemmas on the lookup and the access check\<close>

lemma find_None_no_match:
  "find P xs = None \<longleftrightarrow> (\<forall>x \<in> set xs. \<not> P x)"
  by (induction xs) auto

text \<open>
  \<^const>\<open>find\<close> returns \<open>x\<close> exactly when \<open>x\<close> satisfies the predicate and stands behind
  a prefix in which no element does: \<open>x\<close> is the first match.
\<close>

lemma find_first_match:
  "find P xs = Some x \<longleftrightarrow>
     (\<exists>pre post. xs = pre @ x # post \<and> P x \<and> (\<forall>y \<in> set pre. \<not> P y))"
proof (induction xs)
  case Nil
  then show ?case by simp
next
  case (Cons a xs)
  show ?case
  proof (cases "P a")
    case True
    have "(\<exists>pre post. a # xs = pre @ x # post \<and> P x \<and> (\<forall>y \<in> set pre. \<not> P y)) \<longleftrightarrow> a = x"
    proof
      assume "\<exists>pre post. a # xs = pre @ x # post \<and> P x \<and> (\<forall>y \<in> set pre. \<not> P y)"
      then obtain pre post where d: "a # xs = pre @ x # post" and n: "\<forall>y \<in> set pre. \<not> P y"
        by blast
      show "a = x"
      proof (cases pre)
        case Nil
        with d show ?thesis by simp
      next
        case (Cons b pre')
        with d have "b = a" by simp
        with Cons n True show ?thesis by simp
      qed
    next
      assume "a = x"
      with True have "a # xs = [] @ x # xs \<and> P x \<and> (\<forall>y \<in> set []. \<not> P y)" by simp
      then show "\<exists>pre post. a # xs = pre @ x # post \<and> P x \<and> (\<forall>y \<in> set pre. \<not> P y)"
        by blast
    qed
    with True show ?thesis by simp
  next
    case False
    have "(\<exists>pre post. a # xs = pre @ x # post \<and> P x \<and> (\<forall>y \<in> set pre. \<not> P y)) \<longleftrightarrow>
          (\<exists>pre post. xs = pre @ x # post \<and> P x \<and> (\<forall>y \<in> set pre. \<not> P y))"
    proof
      assume "\<exists>pre post. a # xs = pre @ x # post \<and> P x \<and> (\<forall>y \<in> set pre. \<not> P y)"
      then obtain pre post where d: "a # xs = pre @ x # post" and px: "P x"
        and n: "\<forall>y \<in> set pre. \<not> P y"
        by blast
      show "\<exists>pre post. xs = pre @ x # post \<and> P x \<and> (\<forall>y \<in> set pre. \<not> P y)"
      proof (cases pre)
        case Nil
        with d px False show ?thesis by simp
      next
        case (Cons b pre')
        with d n px have "xs = pre' @ x # post \<and> P x \<and> (\<forall>y \<in> set pre'. \<not> P y)" by simp
        then show ?thesis by blast
      qed
    next
      assume "\<exists>pre post. xs = pre @ x # post \<and> P x \<and> (\<forall>y \<in> set pre. \<not> P y)"
      then obtain pre post where "xs = pre @ x # post" "P x" "\<forall>y \<in> set pre. \<not> P y"
        by blast
      with False have "a # xs = (a # pre) @ x # post \<and> P x \<and> (\<forall>y \<in> set (a # pre). \<not> P y)"
        by simp
      then show "\<exists>pre post. a # xs = pre @ x # post \<and> P x \<and> (\<forall>y \<in> set pre. \<not> P y)"
        by blast
    qed
    with False Cons.IH show ?thesis by simp
  qed
qed

lemma with_username_first:
  "with_username repo n = Some u \<longleftrightarrow>
     (\<exists>pre post. database repo = pre @ u # post \<and> User.username u = n \<and>
        (\<forall>v \<in> set pre. User.username v \<noteq> n))"
  unfolding with_username_def by (rule find_first_match)

lemma with_username_absent:
  "with_username repo n = None \<longleftrightarrow> (\<forall>v \<in> set (database repo). User.username v \<noteq> n)"
  unfolding with_username_def by (rule find_None_no_match)

text \<open>
  In a store whose usernames are pairwise different, every record is the first one with
  its username.
\<close>

lemma first_record_if_distinct:
  assumes "distinct (map User.username db)" and "u \<in> set db"
  shows "\<exists>pre post. db = pre @ u # post \<and> (\<forall>v \<in> set pre. User.username v \<noteq> User.username u)"
proof -
  from assms(2) obtain pre post where d: "db = pre @ u # post"
    by (auto simp: in_set_conv_decomp)
  with assms(1) have "User.username u \<notin> User.username ` set pre"
    by simp
  then have "\<forall>v \<in> set pre. User.username v \<noteq> User.username u"
    by (metis imageI)
  with d show ?thesis by blast
qed

text \<open>The three ways through \<^const>\<open>check_auth\<close>, with the local names unfolded.\<close>

lemma check_auth_cases:
  "check_auth svc =
     (case with_username (user_repository svc)
             (HTTPBasicCredentialsProtocol.username (credentials svc)) of
        None \<Rightarrow> Inl UserNotFoundError
      | Some u \<Rightarrow>
          if User.password u = HTTPBasicCredentialsProtocol.password (credentials svc)
          then Inr (Some u) else Inl UserNotAuthenticatedError)"
  by (simp add: check_auth_def Let_def split: option.splits)

text \<open>
  Where two records carry the same username, the first one decides: the password of the
  second is refused.
\<close>

lemma second_record_of_a_username_refused:
  "check_auth
     \<lparr>credentials = credentials_of ''a'' ''y'',
      user_repository = \<lparr>database = [User_of ''a'' ''x'', User_of ''a'' ''y'']\<rparr>\<rparr> =
   Inl UserNotAuthenticatedError"
  by (simp add: check_auth_cases with_username_def)

lemma get_protected_resource_cases:
  "get_protected_resource svc =
     (case check_auth svc of
        Inl e \<Rightarrow> Inl \<lparr>status_code = 401, detail = ''User not authenticated'',
                       headers = [(''WWW-Authenticate'', ''Basic'')]\<rparr>
      | Inr r \<Rightarrow> Inr ''You got my secret, welcome!'')"
  by (simp add: get_protected_resource_def HTTP_401_UNAUTHORIZED_def
      split: sum.splits ApplicationError.splits)

section \<open>Lemmas on the store built at startup\<close>

lemma startup_lookup:
  "with_username \<lparr>database = DBProvider_database\<rparr> n =
     (if n = ''user1'' then Some (User_of ''user1'' ''pass1'')
      else if n = ''user2'' then Some (User_of ''user2'' ''pass2'')
      else if n = ''user3'' then Some (User_of ''user3'' ''pass3'')
      else if n = ''user4'' then Some (User_of ''user4'' ''pass4'')
      else if n = ''user5'' then Some (User_of ''user5'' ''pass5'')
      else None)"
  by (simp add: with_username_def DBProvider_database_def eq_commute [of _ n])

lemma startup_check_auth:
  "check_auth (access_service_for create_app
       (credentials_of n p)) =
     (if n = ''user1'' then
        (if p = ''pass1'' then Inr (Some (User_of ''user1'' ''pass1'')) else Inl UserNotAuthenticatedError)
      else if n = ''user2'' then
        (if p = ''pass2'' then Inr (Some (User_of ''user2'' ''pass2'')) else Inl UserNotAuthenticatedError)
      else if n = ''user3'' then
        (if p = ''pass3'' then Inr (Some (User_of ''user3'' ''pass3'')) else Inl UserNotAuthenticatedError)
      else if n = ''user4'' then
        (if p = ''pass4'' then Inr (Some (User_of ''user4'' ''pass4'')) else Inl UserNotAuthenticatedError)
      else if n = ''user5'' then
        (if p = ''pass5'' then Inr (Some (User_of ''user5'' ''pass5'')) else Inl UserNotAuthenticatedError)
      else Inl UserNotFoundError)"
  by (simp add: check_auth_cases access_service_for_def create_app_def startup_lookup
      eq_commute [of _ p])

section \<open>Lemmas on the steps of the running application\<close>

text \<open>
  Each step returns what the function on the service of the request returns, and the
  state it returns is the one its callee returned.
\<close>

lemma with_username_step_state: "snd (with_username_step uname s) = s"
  by (simp add: with_username_step_def)

lemma check_auth_step_state: "snd (check_auth_step data s) = s"
proof -
  obtain user s' where w: "with_username_step (HTTPBasicCredentialsProtocol.username data) s =
      (user, s')"
    by (cases "with_username_step (HTTPBasicCredentialsProtocol.username data) s")
  with with_username_step_state [of "HTTPBasicCredentialsProtocol.username data" s]
  have "s' = s" by simp
  with w show ?thesis
    by (simp add: check_auth_step_def split: option.splits)
qed

lemma check_auth_step_result:
  "fst (check_auth_step data s) = check_auth (access_service_for s data)"
  by (simp add: check_auth_step_def with_username_step_def check_auth_def
      access_service_for_def Let_def split: option.splits)

lemma get_protected_resource_step_state: "snd (get_protected_resource_step creds s) = s"
proof -
  obtain r s' where c: "check_auth_step creds s = (r, s')"
    by (cases "check_auth_step creds s")
  with check_auth_step_state [of creds s] have "s' = s" by simp
  with c show ?thesis
    by (simp add: get_protected_resource_step_def split: sum.splits ApplicationError.splits)
qed

lemma get_protected_resource_step_result:
  "fst (get_protected_resource_step creds s) =
     get_protected_resource (access_service_for s creds)"
proof -
  obtain r s' where c: "check_auth_step creds s = (r, s')"
    by (cases "check_auth_step creds s")
  with check_auth_step_result [of creds s]
  have "check_auth (access_service_for s creds) = r" by simp
  with c show ?thesis
    by (simp add: get_protected_resource_step_def get_protected_resource_def
        split: sum.splits ApplicationError.splits)
qed

lemma index_step_state: "snd (index_step s) = s"
  by (simp add: index_step_def)

lemma handle_state: "snd (handle s req) = s"
proof (cases req)
  case GetIndex
  obtain r s' where i: "index_step s = (r, s')" by (cases "index_step s")
  with index_step_state [of s] have "s' = s" by simp
  with i GetIndex show ?thesis by (simp add: handle_def)
next
  case (GetProtectedResource creds)
  obtain r s' where g: "get_protected_resource_step creds s = (r, s')"
    by (cases "get_protected_resource_step creds s")
  with get_protected_resource_step_state [of creds s] have "s' = s" by simp
  with g GetProtectedResource show ?thesis by (simp add: handle_def)
qed

lemma handle_protected_result:
  "fst (handle s (GetProtectedResource creds)) =
     ProtectedResult (get_protected_resource (access_service_for s creds))"
proof -
  obtain r s' where g: "get_protected_resource_step creds s = (r, s')"
    by (cases "get_protected_resource_step creds s")
  with get_protected_resource_step_result [of creds s]
  have "get_protected_resource (access_service_for s creds) = r" by simp
  with g show ?thesis by (simp add: handle_def)
qed

lemma serve_state: "snd (serve s reqs) = s"
proof (induction reqs arbitrary: s)
  case Nil
  then show ?case by simp
next
  case (Cons req reqs)
  obtain out s' where h: "handle s req = (out, s')" by (cases "handle s req")
  obtain outs s'' where r: "serve s' reqs = (outs, s'')" by (cases "serve s' reqs")
  from h have "s' = s" using handle_state [of s req] by simp
  moreover from r have "s'' = s'" using Cons.IH [of s'] by simp
  ultimately show ?case using h r by simp
qed

section \<open>The lookup\<close>

text \<open>
  Claim C4. For every input string, the empty string and unknown usernames included,
  \<^verbatim>\<open>with_username\<close> returns the first record of the store list whose username equals
  the input, compared as strings with no folding of case, and returns \<^verbatim>\<open>None\<close> when
  no record has that username. A record is the first match when it has the username and
  no record before it in the list has it. The lookup is a function of the repository and
  the input alone: it reads \<^verbatim>\<open>self._database\<close> and assigns to nothing.
\<close>

theorem with_username_first_match:
  "(with_username repo n = Some u \<longleftrightarrow>
      (\<exists>pre post. database repo = pre @ u # post \<and> User.username u = n \<and>
         (\<forall>v \<in> set pre. User.username v \<noteq> n))) \<and>
   (with_username repo n = None \<longleftrightarrow>
      (\<forall>v \<in> set (database repo). User.username v \<noteq> n))"
  using with_username_first [of repo n u] with_username_absent [of repo n] by blast

theorem with_username_first_match_witness:
  "with_username \<lparr>database = DBProvider_database\<rparr> ''user3'' =
     Some (User_of ''user3'' ''pass3'') \<and>
   with_username \<lparr>database = DBProvider_database\<rparr> '''' = None \<and>
   with_username \<lparr>database = DBProvider_database\<rparr> ''User3'' = None \<and>
   with_username \<lparr>database = [User_of ''a'' ''x'', User_of ''a'' ''y'']\<rparr> ''a'' =
     Some (User_of ''a'' ''x'')"
proof -
  let ?startup = "\<lparr>database = DBProvider_database\<rparr>"
  let ?twice = "\<lparr>database = [User_of ''a'' ''x'', User_of ''a'' ''y'']\<rparr>"
  have "database ?startup =
          [User_of ''user1'' ''pass1'', User_of ''user2'' ''pass2''] @
          (User_of ''user3'' ''pass3'') #
          [User_of ''user4'' ''pass4'', User_of ''user5'' ''pass5''] \<and>
        User.username (User_of ''user3'' ''pass3'') = ''user3'' \<and>
        (\<forall>v \<in> set [User_of ''user1'' ''pass1'', User_of ''user2'' ''pass2''].
           User.username v \<noteq> ''user3'')"
    by (simp add: DBProvider_database_def)
  then have "\<exists>pre post.
        database ?startup = pre @ (User_of ''user3'' ''pass3'') # post \<and>
        User.username (User_of ''user3'' ''pass3'') = ''user3'' \<and>
        (\<forall>v \<in> set pre. User.username v \<noteq> ''user3'')"
    by blast
  then have a: "with_username ?startup ''user3'' = Some (User_of ''user3'' ''pass3'')"
    using with_username_first_match [of ?startup "''user3''" "User_of ''user3'' ''pass3''"]
    by blast
  have "\<forall>v \<in> set (database ?startup). User.username v \<noteq> ''''"
    by (simp add: DBProvider_database_def)
  then have b: "with_username ?startup '''' = None"
    using with_username_first_match [of ?startup "''''"]
    by blast
  have "\<forall>v \<in> set (database ?startup). User.username v \<noteq> ''User3''"
    by (simp add: DBProvider_database_def)
  then have c: "with_username ?startup ''User3'' = None"
    using with_username_first_match [of ?startup "''User3''"]
    by blast
  have "database ?twice = [] @ (User_of ''a'' ''x'') # [User_of ''a'' ''y''] \<and>
        User.username (User_of ''a'' ''x'') = ''a'' \<and>
        (\<forall>v \<in> set []. User.username v \<noteq> ''a'')"
    by simp
  then have "\<exists>pre post.
        database ?twice = pre @ (User_of ''a'' ''x'') # post \<and>
        User.username (User_of ''a'' ''x'') = ''a'' \<and>
        (\<forall>v \<in> set pre. User.username v \<noteq> ''a'')"
    by blast
  then have d: "with_username ?twice ''a'' = Some (User_of ''a'' ''x'')"
    using with_username_first_match [of ?twice "''a''" "User_of ''a'' ''x''"]
    by blast
  from a b c d show ?thesis by blast
qed

section \<open>The access check\<close>

text \<open>
  Claim C1. When the store contains a record whose username and password are those of
  the credentials, and that record is the first record of the store with that username,
  \<^verbatim>\<open>check_auth\<close> returns exactly that record and raises nothing.
\<close>

theorem check_auth_returns_matched_user:
  assumes "database (user_repository svc) = pre @ u # post"
    and "\<forall>v \<in> set pre. User.username v \<noteq> HTTPBasicCredentialsProtocol.username (credentials svc)"
    and "User.username u = HTTPBasicCredentialsProtocol.username (credentials svc)"
    and "User.password u = HTTPBasicCredentialsProtocol.password (credentials svc)"
  shows "check_auth svc = Inr (Some u)"
proof -
  from assms(1-3) have "with_username (user_repository svc)
      (HTTPBasicCredentialsProtocol.username (credentials svc)) = Some u"
    unfolding with_username_first by blast
  with assms(4) show ?thesis by (simp add: check_auth_cases)
qed

theorem check_auth_returns_matched_user_witness:
  "store create_app =
     [User_of ''user1'' ''pass1'', User_of ''user2'' ''pass2''] @
     (User_of ''user3'' ''pass3'') #
     [User_of ''user4'' ''pass4'', User_of ''user5'' ''pass5''] \<and>
   check_auth (access_service_for create_app (credentials_of ''user3'' ''pass3'')) =
     Inr (Some (User_of ''user3'' ''pass3''))"
proof -
  let ?svc = "access_service_for create_app (credentials_of ''user3'' ''pass3'')"
  have s: "store create_app =
      [User_of ''user1'' ''pass1'', User_of ''user2'' ''pass2''] @
      (User_of ''user3'' ''pass3'') #
      [User_of ''user4'' ''pass4'', User_of ''user5'' ''pass5'']"
    by (simp add: create_app_def DBProvider_database_def)
  then have d: "database (user_repository ?svc) =
      [User_of ''user1'' ''pass1'', User_of ''user2'' ''pass2''] @
      (User_of ''user3'' ''pass3'') #
      [User_of ''user4'' ''pass4'', User_of ''user5'' ''pass5'']"
    by (simp add: access_service_for_def)
  have n: "\<forall>v \<in> set [User_of ''user1'' ''pass1'', User_of ''user2'' ''pass2''].
      User.username v \<noteq> HTTPBasicCredentialsProtocol.username (credentials ?svc)"
    by (simp add: access_service_for_def)
  have a: "User.username (User_of ''user3'' ''pass3'') =
      HTTPBasicCredentialsProtocol.username (credentials ?svc)"
    by (simp add: access_service_for_def)
  have b: "User.password (User_of ''user3'' ''pass3'') =
      HTTPBasicCredentialsProtocol.password (credentials ?svc)"
    by (simp add: access_service_for_def)
  from s check_auth_returns_matched_user [OF d n a b] show ?thesis by simp
qed

text \<open>
  Claim C2. When no record of the store has the username of the credentials, so that the
  lookup returns \<^verbatim>\<open>None\<close>, \<^verbatim>\<open>check_auth\<close> raises \<^verbatim>\<open>UserNotFoundError\<close> and returns
  no user.
\<close>

theorem check_auth_unknown_username:
  assumes "\<forall>v \<in> set (database (user_repository svc)).
             User.username v \<noteq> HTTPBasicCredentialsProtocol.username (credentials svc)"
  shows "with_username (user_repository svc)
           (HTTPBasicCredentialsProtocol.username (credentials svc)) = None \<and>
         check_auth svc = Inl UserNotFoundError"
  using assms by (simp add: check_auth_cases with_username_absent [symmetric])

theorem check_auth_unknown_username_witness:
  "with_username \<lparr>database = store create_app\<rparr> ''user6'' = None \<and>
   check_auth (access_service_for create_app (credentials_of ''user6'' ''pass1'')) =
     Inl UserNotFoundError"
proof -
  have h: "\<forall>v \<in> set (database (user_repository
        (access_service_for create_app (credentials_of ''user6'' ''pass1'')))).
      User.username v \<noteq> HTTPBasicCredentialsProtocol.username
        (credentials (access_service_for create_app (credentials_of ''user6'' ''pass1'')))"
    by (simp add: access_service_for_def create_app_def DBProvider_database_def)
  from check_auth_unknown_username [OF h] show ?thesis
    by (simp add: access_service_for_def)
qed

text \<open>
  Claim C3. When the store has a record with the username of the credentials and the
  password of the record the lookup finds, the first with that username, is not equal to
  the password of the credentials, \<^verbatim>\<open>check_auth\<close> raises \<^verbatim>\<open>UserNotAuthenticatedError\<close>.
  The comparison is equality of strings, so a password that differs from the stored one
  only in the case of a letter or in whitespace is refused.
\<close>

theorem check_auth_wrong_password:
  assumes "database (user_repository svc) = pre @ u # post"
    and "\<forall>v \<in> set pre. User.username v \<noteq> HTTPBasicCredentialsProtocol.username (credentials svc)"
    and "User.username u = HTTPBasicCredentialsProtocol.username (credentials svc)"
    and "User.password u \<noteq> HTTPBasicCredentialsProtocol.password (credentials svc)"
  shows "check_auth svc = Inl UserNotAuthenticatedError"
proof -
  from assms(1-3) have "with_username (user_repository svc)
      (HTTPBasicCredentialsProtocol.username (credentials svc)) = Some u"
    unfolding with_username_first by blast
  with assms(4) show ?thesis by (simp add: check_auth_cases)
qed

theorem check_auth_wrong_password_witness:
  "store create_app =
     [] @ (User_of ''user1'' ''pass1'') #
     [User_of ''user2'' ''pass2'', User_of ''user3'' ''pass3'',
      User_of ''user4'' ''pass4'', User_of ''user5'' ''pass5''] \<and>
   check_auth (access_service_for create_app (credentials_of ''user1'' ''Pass1'')) =
     Inl UserNotAuthenticatedError \<and>
   check_auth (access_service_for create_app (credentials_of ''user1'' ''pass1 '')) =
     Inl UserNotAuthenticatedError"
proof -
  let ?rest = "[User_of ''user2'' ''pass2'', User_of ''user3'' ''pass3'',
      User_of ''user4'' ''pass4'', User_of ''user5'' ''pass5'']"
  let ?upper = "access_service_for create_app (credentials_of ''user1'' ''Pass1'')"
  let ?space = "access_service_for create_app (credentials_of ''user1'' ''pass1 '')"
  have s: "store create_app = [] @ (User_of ''user1'' ''pass1'') # ?rest"
    by (simp add: create_app_def DBProvider_database_def)
  have n: "\<forall>v \<in> set []. User.username v \<noteq> ''user1''"
    by simp
  have "check_auth ?upper = Inl UserNotAuthenticatedError"
    using s n check_auth_wrong_password [of ?upper "[]" "User_of ''user1'' ''pass1''" ?rest]
    by (simp add: access_service_for_def)
  moreover
  have "check_auth ?space = Inl UserNotAuthenticatedError"
    using s n check_auth_wrong_password [of ?space "[]" "User_of ''user1'' ''pass1''" ?rest]
    by (simp add: access_service_for_def)
  ultimately show ?thesis using s by simp
qed

text \<open>
  Claim C9. \<^verbatim>\<open>check_auth\<close> is declared to return \<^verbatim>\<open>User | None\<close>, yet for every
  credentials and every store it never returns \<^verbatim>\<open>None\<close>: whenever it returns, the
  value is a record of the store whose username and password are those of the
  credentials.
\<close>

theorem check_auth_never_None:
  "check_auth svc \<noteq> Inr None \<and>
   (check_auth svc = Inr r \<longrightarrow>
      (\<exists>u. r = Some u \<and> u \<in> set (database (user_repository svc)) \<and>
         User.username u = HTTPBasicCredentialsProtocol.username (credentials svc) \<and>
         User.password u = HTTPBasicCredentialsProtocol.password (credentials svc)))"
proof -
  have *: "\<exists>u. r' = Some u \<and> u \<in> set (database (user_repository svc)) \<and>
         User.username u = HTTPBasicCredentialsProtocol.username (credentials svc) \<and>
         User.password u = HTTPBasicCredentialsProtocol.password (credentials svc)"
    if "check_auth svc = Inr r'" for r'
  proof -
    from that obtain u where
      w: "with_username (user_repository svc)
            (HTTPBasicCredentialsProtocol.username (credentials svc)) = Some u"
      and p: "User.password u = HTTPBasicCredentialsProtocol.password (credentials svc)"
      and r: "r' = Some u"
      by (auto simp: check_auth_cases split: option.splits if_splits)
    from w obtain pre post where "database (user_repository svc) = pre @ u # post"
      and "User.username u = HTTPBasicCredentialsProtocol.username (credentials svc)"
      unfolding with_username_first by blast
    with p r show ?thesis by auto
  qed
  from * [of None] have "check_auth svc \<noteq> Inr None" by auto
  with * [of r] show ?thesis by blast
qed

theorem check_auth_never_None_witness:
  "check_auth (access_service_for create_app (credentials_of ''user3'' ''pass3'')) =
     Inr (Some (User_of ''user3'' ''pass3'')) \<and>
   User_of ''user3'' ''pass3'' \<in> set (store create_app)"
proof -
  let ?svc = "access_service_for create_app (credentials_of ''user3'' ''pass3'')"
  have c: "check_auth ?svc = Inr (Some (User_of ''user3'' ''pass3''))"
    by (simp add: startup_check_auth)
  with check_auth_never_None [of ?svc "Some (User_of ''user3'' ''pass3'')"]
  have "User_of ''user3'' ''pass3'' \<in> set (database (user_repository ?svc))"
    by simp
  with c show ?thesis by (simp add: access_service_for_def)
qed

section \<open>The protected resource\<close>

text \<open>
  Claim C5. When the access check of a request to \<^verbatim>\<open>GET /protected_resource/\<close> raises
  \<^verbatim>\<open>UserNotFoundError\<close> or \<^verbatim>\<open>UserNotAuthenticatedError\<close>, the handler raises an
  \<^verbatim>\<open>HTTPException\<close> with status 401, the header \<^verbatim>\<open>WWW-Authenticate: Basic\<close> and the
  detail \<^verbatim>\<open>User not authenticated\<close>, which is the 401 response with that header and
  that detail; when the access check returns, the handler returns the string
  \<^verbatim>\<open>You got my secret, welcome!\<close>, which is the 200 response with that body.
\<close>

theorem get_protected_resource_responses:
  "(check_auth svc = Inl UserNotFoundError \<or> check_auth svc = Inl UserNotAuthenticatedError \<longrightarrow>
      get_protected_resource svc =
        Inl \<lparr>status_code = 401, detail = ''User not authenticated'',
             headers = [(''WWW-Authenticate'', ''Basic'')]\<rparr> \<and>
      http_of (get_protected_resource svc) =
        \<lparr>status = 401, response_headers = [(''WWW-Authenticate'', ''Basic'')],
         body = Detail ''User not authenticated''\<rparr>) \<and>
   (check_auth svc = Inr r \<longrightarrow>
      get_protected_resource svc = Inr ''You got my secret, welcome!'' \<and>
      http_of (get_protected_resource svc) =
        \<lparr>status = 200, response_headers = [], body = Body ''You got my secret, welcome!''\<rparr>)"
  by (auto simp: get_protected_resource_cases http_of_def)

theorem get_protected_resource_responses_witness:
  "check_auth (access_service_for create_app (credentials_of ''user6'' ''pass1'')) =
     Inl UserNotFoundError \<and>
   http_of (get_protected_resource
       (access_service_for create_app (credentials_of ''user6'' ''pass1''))) =
     \<lparr>status = 401, response_headers = [(''WWW-Authenticate'', ''Basic'')],
      body = Detail ''User not authenticated''\<rparr> \<and>
   check_auth (access_service_for create_app (credentials_of ''user1'' ''wrongpass'')) =
     Inl UserNotAuthenticatedError \<and>
   http_of (get_protected_resource
       (access_service_for create_app (credentials_of ''user1'' ''wrongpass''))) =
     \<lparr>status = 401, response_headers = [(''WWW-Authenticate'', ''Basic'')],
      body = Detail ''User not authenticated''\<rparr> \<and>
   check_auth (access_service_for create_app (credentials_of ''user3'' ''pass3'')) =
     Inr (Some (User_of ''user3'' ''pass3'')) \<and>
   http_of (get_protected_resource
       (access_service_for create_app (credentials_of ''user3'' ''pass3''))) =
     \<lparr>status = 200, response_headers = [], body = Body ''You got my secret, welcome!''\<rparr>"
proof -
  let ?unknown = "access_service_for create_app (credentials_of ''user6'' ''pass1'')"
  let ?wrong = "access_service_for create_app (credentials_of ''user1'' ''wrongpass'')"
  let ?right = "access_service_for create_app (credentials_of ''user3'' ''pass3'')"
  have a: "check_auth ?unknown = Inl UserNotFoundError"
    by (simp add: startup_check_auth)
  have b: "check_auth ?wrong = Inl UserNotAuthenticatedError"
    by (simp add: startup_check_auth)
  have c: "check_auth ?right = Inr (Some (User_of ''user3'' ''pass3''))"
    by (simp add: startup_check_auth)
  from a get_protected_resource_responses [of ?unknown]
  have a': "http_of (get_protected_resource ?unknown) =
     \<lparr>status = 401, response_headers = [(''WWW-Authenticate'', ''Basic'')],
      body = Detail ''User not authenticated''\<rparr>"
    by blast
  from b get_protected_resource_responses [of ?wrong]
  have b': "http_of (get_protected_resource ?wrong) =
     \<lparr>status = 401, response_headers = [(''WWW-Authenticate'', ''Basic'')],
      body = Detail ''User not authenticated''\<rparr>"
    by blast
  from c get_protected_resource_responses [of ?right "Some (User_of ''user3'' ''pass3'')"]
  have c': "http_of (get_protected_resource ?right) =
     \<lparr>status = 200, response_headers = [], body = Body ''You got my secret, welcome!''\<rparr>"
    by blast
  from a a' b b' c c' show ?thesis by blast
qed

text \<open>
  Claim C6. Of two requests to \<^verbatim>\<open>GET /protected_resource/\<close>, one whose access check
  raises \<^verbatim>\<open>UserNotFoundError\<close> and one whose access check raises
  \<^verbatim>\<open>UserNotAuthenticatedError\<close>, the handler raises the same exception and the responses
  are equal in status code, headers and detail.
\<close>

theorem failure_responses_indistinguishable:
  assumes "check_auth svc1 = Inl UserNotFoundError"
    and "check_auth svc2 = Inl UserNotAuthenticatedError"
  shows "get_protected_resource svc1 = get_protected_resource svc2 \<and>
         status (http_of (get_protected_resource svc1)) =
           status (http_of (get_protected_resource svc2)) \<and>
         response_headers (http_of (get_protected_resource svc1)) =
           response_headers (http_of (get_protected_resource svc2)) \<and>
         body (http_of (get_protected_resource svc1)) =
           body (http_of (get_protected_resource svc2))"
  using assms by (simp add: get_protected_resource_cases)

theorem failure_responses_indistinguishable_witness:
  "check_auth (access_service_for create_app (credentials_of ''user6'' ''pass1'')) =
     Inl UserNotFoundError \<and>
   check_auth (access_service_for create_app (credentials_of ''user1'' ''wrongpass'')) =
     Inl UserNotAuthenticatedError \<and>
   get_protected_resource (access_service_for create_app (credentials_of ''user6'' ''pass1'')) =
     get_protected_resource
       (access_service_for create_app (credentials_of ''user1'' ''wrongpass''))"
proof -
  let ?unknown = "access_service_for create_app (credentials_of ''user6'' ''pass1'')"
  let ?wrong = "access_service_for create_app (credentials_of ''user1'' ''wrongpass'')"
  have a: "check_auth ?unknown = Inl UserNotFoundError"
    by (simp add: startup_check_auth)
  have b: "check_auth ?wrong = Inl UserNotAuthenticatedError"
    by (simp add: startup_check_auth)
  from a b failure_responses_indistinguishable [OF a b] show ?thesis by blast
qed

text \<open>
  Claim C7. A request to \<^verbatim>\<open>GET /protected_resource/\<close> with the credentials
  \<^verbatim>\<open>user1\<close> and \<^verbatim>\<open>pass1\<close> succeeds: the store built at startup contains the record
  \<^verbatim>\<open>(user1, pass1)\<close>, the access check returns it, the handler returns
  \<^verbatim>\<open>You got my secret, welcome!\<close>, and the response is 200 with that body.
\<close>

theorem user1_pass1_succeeds:
  "User_of ''user1'' ''pass1'' \<in> set (store create_app) \<and>
   check_auth (access_service_for create_app (credentials_of ''user1'' ''pass1'')) =
     Inr (Some (User_of ''user1'' ''pass1'')) \<and>
   fst (handle create_app (GetProtectedResource (credentials_of ''user1'' ''pass1''))) =
     ProtectedResult (Inr ''You got my secret, welcome!'') \<and>
   http_of (get_protected_resource
       (access_service_for create_app (credentials_of ''user1'' ''pass1''))) =
     \<lparr>status = 200, response_headers = [], body = Body ''You got my secret, welcome!''\<rparr>"
proof -
  let ?creds = "credentials_of ''user1'' ''pass1''"
  have m: "User_of ''user1'' ''pass1'' \<in> set (store create_app)"
    by (simp add: create_app_def DBProvider_database_def)
  have c: "check_auth (access_service_for create_app ?creds) =
      Inr (Some (User_of ''user1'' ''pass1''))"
    by (simp add: startup_check_auth)
  then have g: "get_protected_resource (access_service_for create_app ?creds) =
      Inr ''You got my secret, welcome!''"
    by (simp add: get_protected_resource_cases)
  then have h: "fst (handle create_app (GetProtectedResource ?creds)) =
      ProtectedResult (Inr ''You got my secret, welcome!'')"
    by (simp add: handle_protected_result)
  from g have r: "http_of (get_protected_resource (access_service_for create_app ?creds)) =
      \<lparr>status = 200, response_headers = [], body = Body ''You got my secret, welcome!''\<rparr>"
    by (simp add: http_of_def)
  from m c h r show ?thesis by blast
qed

section \<open>The store built at startup\<close>

text \<open>
  Claim C8. The user store is the list built at startup and stays as built. No operation
  of the program changes it: the lookup, the access check and either handler, run as
  steps on the shared list, each return the list as they received it, so serving a
  request does, and after any sequence of requests the store is still the list of
  \<^verbatim>\<open>DBProvider.database\<close>, with no record changed, added or removed. No two records of
  that list have the same username.
\<close>

theorem store_read_only:
  "snd (with_username_step uname s) = s \<and>
   snd (check_auth_step creds s) = s \<and>
   snd (get_protected_resource_step creds s) = s \<and>
   snd (index_step s) = s \<and>
   snd (handle s req) = s \<and>
   snd (serve s reqs) = s \<and>
   store (snd (serve create_app reqs)) = DBProvider_database \<and>
   distinct (map User.username DBProvider_database)"
proof -
  have "store (snd (serve create_app reqs)) = DBProvider_database"
    by (simp add: serve_state create_app_def)
  moreover have "distinct (map User.username DBProvider_database)"
    by (simp add: DBProvider_database_def)
  ultimately show ?thesis
    by (simp add: with_username_step_state check_auth_step_state
        get_protected_resource_step_state index_step_state handle_state serve_state)
qed

text \<open>
  Claim C10. Against the store built at startup, \<^verbatim>\<open>check_auth\<close> returns for exactly
  five pairs of credentials: \<^verbatim>\<open>(user1, pass1)\<close>, \<^verbatim>\<open>(user2, pass2)\<close>, \<^verbatim>\<open>(user3, pass3)\<close>,
  \<^verbatim>\<open>(user4, pass4)\<close> and \<^verbatim>\<open>(user5, pass5)\<close>. For every other pair it raises
  \<^verbatim>\<open>UserNotFoundError\<close> or \<^verbatim>\<open>UserNotAuthenticatedError\<close>.
\<close>

theorem startup_accepted_credentials:
  "((\<exists>r. check_auth (access_service_for create_app c) = Inr r) \<longleftrightarrow>
      (HTTPBasicCredentialsProtocol.username c, HTTPBasicCredentialsProtocol.password c) \<in>
        {(''user1'', ''pass1''), (''user2'', ''pass2''), (''user3'', ''pass3''),
         (''user4'', ''pass4''), (''user5'', ''pass5'')}) \<and>
   ((HTTPBasicCredentialsProtocol.username c, HTTPBasicCredentialsProtocol.password c) \<notin>
        {(''user1'', ''pass1''), (''user2'', ''pass2''), (''user3'', ''pass3''),
         (''user4'', ''pass4''), (''user5'', ''pass5'')} \<longrightarrow>
      check_auth (access_service_for create_app c) = Inl UserNotFoundError \<or>
      check_auth (access_service_for create_app c) = Inl UserNotAuthenticatedError) \<and>
   card {(''user1'', ''pass1''), (''user2'', ''pass2''), (''user3'', ''pass3''),
         (''user4'', ''pass4''), (''user5'', ''pass5'')} = 5"
proof -
  obtain n p where c: "c = credentials_of n p"
    by (cases c) simp
  show ?thesis
    unfolding c by (simp add: startup_check_auth)
qed

theorem startup_accepted_credentials_witness:
  "(\<exists>r. check_auth (access_service_for create_app (credentials_of ''user3'' ''pass3'')) =
         Inr r) \<and>
   (check_auth (access_service_for create_app (credentials_of ''user1'' ''pass2'')) =
      Inl UserNotFoundError \<or>
    check_auth (access_service_for create_app (credentials_of ''user1'' ''pass2'')) =
      Inl UserNotAuthenticatedError) \<and>
   (check_auth (access_service_for create_app (credentials_of ''user6'' ''pass1'')) =
      Inl UserNotFoundError \<or>
    check_auth (access_service_for create_app (credentials_of ''user6'' ''pass1'')) =
      Inl UserNotAuthenticatedError)"
  using startup_accepted_credentials [of "credentials_of ''user3'' ''pass3''"]
    startup_accepted_credentials [of "credentials_of ''user1'' ''pass2''"]
    startup_accepted_credentials [of "credentials_of ''user6'' ''pass1''"]
  by simp

end
